theory Spec2Isabelle
  imports Complex_Main "HOL-Library.Sublist"
begin

section \<open>Python strings\<close>

text \<open>
  The strings that are only stripped, split, compared and written (tag names, attribute
  values, the texts that are reported) are modelled as \<^typ>\<open>string\<close>; a \<^typ>\<open>char\<close>
  stands for a code point below 256, so \<open>strip\<close> and \<open>split\<close> below are the Latin-1
  fragment of Python's. \<open>str.isspace\<close> holds for the code points 9 to 13, 28 to 32, 133
  and 160 of that range. The strings that are lower-cased are lists of code points, see
  the next section.
\<close>

definition is_space :: "char \<Rightarrow> bool" where
  "is_space c =
     (let n = (of_char c :: nat)
      in (9 \<le> n \<and> n \<le> 13) \<or> (28 \<le> n \<and> n \<le> 32) \<or> n = 133 \<or> n = 160)"

text \<open>\<open>s.strip()\<close> drops the white space at both ends.\<close>

definition py_strip :: "string \<Rightarrow> string" where
  "py_strip s = rev (dropWhile is_space (rev (dropWhile is_space s)))"

text \<open>
  \<open>s.split()\<close>: the maximal runs of characters that are not white space, in order.
  \<open>split_acc\<close> carries the word being read.
\<close>

fun split_acc :: "string \<Rightarrow> string \<Rightarrow> string list" where
  "split_acc w [] = (if w = [] then [] else [w])"
| "split_acc w (c # cs) =
     (if is_space c then (if w = [] then split_acc [] cs else w # split_acc [] cs)
      else split_acc (w @ [c]) cs)"

definition py_split :: "string \<Rightarrow> string list" where
  "py_split s = split_acc [] s"

text \<open>\<open>sep.join(xs)\<close>.\<close>

fun py_join :: "'a list \<Rightarrow> 'a list list \<Rightarrow> 'a list" where
  "py_join sep [] = []"
| "py_join sep [x] = x"
| "py_join sep (x # y # ys) = x @ sep @ py_join sep (y # ys)"

text \<open>
  \<open>s.count(sub)\<close>: the scan starts at the left; where \<open>sub\<close> stands at the current
  position it is counted and the scan goes on behind it, otherwise the scan moves one
  character on. The empty \<open>sub\<close> is counted \<open>len(s) + 1\<close> times.
\<close>

function py_count :: "'a list \<Rightarrow> 'a list \<Rightarrow> nat" where
  "py_count s sub =
     (if sub = [] then length s + 1
      else if length s < length sub then 0
      else if take (length sub) s = sub then 1 + py_count (drop (length sub) s) sub
      else py_count (tl s) sub)"
  by pat_completeness auto
termination
  by (relation "measure (\<lambda>(s, sub). length s)") (auto simp flip: length_greater_0_conv)

text \<open>
  \<open>s.replace(old, new)\<close> for a non-empty \<open>old\<close>: the same scan, every occurrence met
  replaced. (With an empty \<open>old\<close> Python puts \<open>new\<close> around every character.)
\<close>

function py_replace :: "'a list \<Rightarrow> 'a list \<Rightarrow> 'a list \<Rightarrow> 'a list" where
  "py_replace s old new =
     (if old = [] then new @ concat (map (\<lambda>c. c # new) s)
      else if length s < length old then s
      else if take (length old) s = old then new @ py_replace (drop (length old) s) old new
      else hd s # py_replace (tl s) old new)"
  by pat_completeness auto
termination
  by (relation "measure (\<lambda>(s, old, new). length s)")
    (auto simp flip: length_greater_0_conv)

section \<open>Strings of code points and \<open>str.lower\<close>\<close>

text \<open>
  \<open>str.lower\<close> is not a map over the characters of a code page: a character can become
  several, and the Greek capital sigma (code point 931) becomes the final small sigma
  (962) or the small sigma (963) by what stands around it. So the keyword, and the text
  of the document it is counted in, are lists of code points. \<open>u\<close> reads a literal as
  the code points of its characters.
\<close>

type_synonym ustr = "nat list"

definition u :: "string \<Rightarrow> ustr" where
  "u s = map of_char s"

text \<open>
  The tables of the Unicode character database that \<open>str.lower\<close> reads: the full
  lower-case mapping of a code point, and the properties \<open>cased\<close> and \<open>case-ignorable\<close>.
  They belong to the interpreter; the counter is defined for any tables.
\<close>

record ucd =
  tolower_full :: "nat \<Rightarrow> nat list"
  cased :: "nat \<Rightarrow> bool"
  case_ignorable :: "nat \<Rightarrow> bool"

text \<open>
  A capital sigma is final when, the case-ignorable characters skipped, a cased character
  stands before it and none stands behind it. \<open>before\<close> is the text before the sigma
  read backwards (the nearest character first), \<open>after\<close> the text behind it.
\<close>

definition final_sigma :: "ucd \<Rightarrow> ustr \<Rightarrow> ustr \<Rightarrow> bool" where
  "final_sigma d before after =
     ((case dropWhile (case_ignorable d) before of [] \<Rightarrow> False | c # _ \<Rightarrow> cased d c) \<and>
      (case dropWhile (case_ignorable d) after of [] \<Rightarrow> True | c # _ \<Rightarrow> \<not> cased d c))"

fun lower_from :: "ucd \<Rightarrow> ustr \<Rightarrow> ustr \<Rightarrow> ustr" where
  "lower_from d before [] = []"
| "lower_from d before (c # cs) =
     (if c = 931 then [if final_sigma d before cs then 962 else 963] else tolower_full d c)
       @ lower_from d (c # before) cs"

definition py_lower :: "ucd \<Rightarrow> ustr \<Rightarrow> ustr" where
  "py_lower d s = lower_from d [] s"

text \<open>
  The tables on the code points below 256 and on the Greek letters 913 to 969, for the
  examples. (On other code points this is not the database.)
\<close>

definition latin_greek :: ucd where
  "latin_greek =
     \<lparr>tolower_full =
        (\<lambda>c. [if (65 \<le> c \<and> c \<le> 90) \<or> (192 \<le> c \<and> c \<le> 222 \<and> c \<noteq> 215) \<or>
                 (913 \<le> c \<and> c \<le> 939 \<and> c \<noteq> 930)
              then c + 32 else c]),
      cased =
        (\<lambda>c. (65 \<le> c \<and> c \<le> 90) \<or> (97 \<le> c \<and> c \<le> 122) \<or> c = 170 \<or> c = 181 \<or> c = 186 \<or>
             (192 \<le> c \<and> c \<le> 214) \<or> (216 \<le> c \<and> c \<le> 246) \<or> (248 \<le> c \<and> c \<le> 255) \<or>
             (913 \<le> c \<and> c \<le> 969 \<and> c \<noteq> 930)),
      case_ignorable =
        (\<lambda>c. c \<in> set [39, 46, 58, 94, 96, 168, 173, 175, 180, 183, 184])\<rparr>"

section \<open>Parsed documents\<close>

text \<open>
  The HTML parser is a library. What the extractors read of its result is a tree: text
  strings, other strings (comments, declarations: \<open>get_text\<close> leaves them out), and
  tags with a name, an attribute dictionary and their contents in document order.
  The type of the characters of the strings is left open: \<open>node\<close> has them in Latin-1,
  \<open>unode\<close> as code points. A \<open>soup\<close> is the contents of the document object.
\<close>

datatype 'c page_element =
    Text "'c list"
  | Comment "'c list"
  | Elem string "(string \<times> string) list" "'c page_element list"

type_synonym node = "char page_element"

type_synonym soup = "node list"

type_synonym unode = "nat page_element"

type_synonym usoup = "unode list"

fun tag_name :: "'c page_element \<Rightarrow> string option" where
  "tag_name (Elem n a cs) = Some n"
| "tag_name _ = None"

text \<open>\<open>tag.get(key)\<close> is \<open>None\<close> for a string or a missing attribute.\<close>

fun attr :: "'c page_element \<Rightarrow> string \<Rightarrow> string option" where
  "attr (Elem n a cs) k = map_of a k"
| "attr _ k = None"

text \<open>
  \<open>find_all\<close>: the tags below the starting point that satisfy the test, in document
  order (a tag before the tags inside it).
\<close>

fun find_all_node ::
  "('c page_element \<Rightarrow> bool) \<Rightarrow> 'c page_element \<Rightarrow> 'c page_element list" where
  "find_all_node P (Elem n a cs) =
     (if P (Elem n a cs) then [Elem n a cs] else []) @ concat (map (find_all_node P) cs)"
| "find_all_node P _ = []"

definition find_all ::
  "('c page_element \<Rightarrow> bool) \<Rightarrow> 'c page_element list \<Rightarrow> 'c page_element list" where
  "find_all P sp = concat (map (find_all_node P) sp)"

text \<open>\<open>find\<close> is the first tag of \<open>find_all\<close>, or \<open>None\<close>.\<close>

definition find ::
  "('c page_element \<Rightarrow> bool) \<Rightarrow> 'c page_element list \<Rightarrow> 'c page_element option" where
  "find P sp = (case find_all P sp of [] \<Rightarrow> None | x # _ \<Rightarrow> Some x)"

definition named :: "string list \<Rightarrow> 'c page_element \<Rightarrow> bool" where
  "named names x = (case tag_name x of None \<Rightarrow> False | Some n \<Rightarrow> n \<in> set names)"

text \<open>\<open>get_text()\<close>: the text strings below a node, joined in document order.\<close>

fun get_text :: "'c page_element \<Rightarrow> 'c list" where
  "get_text (Text s) = s"
| "get_text (Comment s) = []"
| "get_text (Elem n a cs) = concat (map get_text cs)"

definition soup_text :: "'c page_element list \<Rightarrow> 'c list" where
  "soup_text sp = concat (map get_text sp)"

text \<open>
  \<open>for t in soup(names): t.decompose()\<close>: every tag with one of the names is taken
  out of the tree, with everything inside it.
\<close>

fun decompose_node :: "string list \<Rightarrow> 'c page_element \<Rightarrow> 'c page_element" where
  "decompose_node names (Elem n a cs) =
     Elem n a (filter (\<lambda>x. \<not> named names x) (map (decompose_node names) cs))"
| "decompose_node names x = x"

definition decompose_all ::
  "string list \<Rightarrow> 'c page_element list \<Rightarrow> 'c page_element list" where
  "decompose_all names sp = filter (\<lambda>x. \<not> named names x) (map (decompose_node names) sp)"

section \<open>Keyword frequency\<close>

record keyword_frequency =
  total :: int
  title :: int
  headings :: int
  body :: int

text \<open>
  The counting of \<open>calculate_keyword_frequency\<close> on the parsed document; \<open>d\<close> are the
  tables \<open>str.lower\<close> reads.
\<close>

definition count_keyword :: "ucd \<Rightarrow> usoup \<Rightarrow> ustr \<Rightarrow> keyword_frequency" where
  "count_keyword d parsed keyword =
     (let keyword_lower = py_lower d keyword;
          sp = decompose_all [''script'', ''style''] parsed;
          all_text = py_lower d (soup_text sp);
          total_count = int (py_count all_text keyword_lower);
          title_count =
            (case find (named [''title'']) sp of
               None \<Rightarrow> 0
             | Some t \<Rightarrow> int (py_count (py_lower d (get_text t)) keyword_lower));
          headings_text =
            py_join (u '' '')
              (map (\<lambda>h. py_lower d (get_text h))
                 (find_all (named [''h1'', ''h2'', ''h3'', ''h4'', ''h5'', ''h6'']) sp));
          headings_count = int (py_count headings_text keyword_lower);
          body_count = max 0 (total_count - title_count - headings_count)
      in \<lparr>total = total_count, title = title_count, headings = headings_count,
          body = body_count\<rparr>)"

text \<open>
  \<open>calculate_keyword_frequency\<close>; \<open>parse\<close> is the library's parser,
  \<open>BeautifulSoup(html_content, 'html.parser')\<close>.
\<close>

definition calculate_keyword_frequency ::
  "ucd \<Rightarrow> (ustr \<Rightarrow> usoup) \<Rightarrow> ustr \<Rightarrow> ustr \<Rightarrow> keyword_frequency" where
  "calculate_keyword_frequency d parse html_content keyword =
     (if html_content = [] \<or> keyword = []
      then \<lparr>total = 0, title = 0, headings = 0, body = 0\<rparr>
      else count_keyword d (parse html_content) keyword)"

section \<open>Title and meta description\<close>

definition extract_title_tag :: "soup \<Rightarrow> string" where
  "extract_title_tag sp =
     (case find (named [''title'']) sp of
        Some title_tag \<Rightarrow> py_strip (get_text title_tag)
      | None \<Rightarrow> ''No title tag found'')"

text \<open>
  \<open>extract_meta_description\<close>. A tag is always true in a condition; the attribute
  \<open>content\<close> is true when it is there and not the empty string.
\<close>

definition extract_meta_description :: "soup \<Rightarrow> string" where
  "extract_meta_description sp =
     (case find (\<lambda>x. named [''meta''] x \<and> attr x ''name'' = Some ''description'') sp of
        None \<Rightarrow> ''No meta description found''
      | Some meta_desc \<Rightarrow>
          (case attr meta_desc ''content'' of
             None \<Rightarrow> ''No meta description found''
           | Some c \<Rightarrow> if c \<noteq> [] then py_strip c else ''No meta description found''))"

section \<open>H1 tags\<close>

record heading_analysis =
  count :: int
  texts :: "string list"
  status :: string

definition analyze_h1_tags :: "soup \<Rightarrow> heading_analysis" where
  "analyze_h1_tags sp =
     (let h1_tags = find_all (named [''h1'']) sp;
          h1_texts = map (\<lambda>h1. py_strip (get_text h1)) h1_tags
      in \<lparr>count = int (length h1_tags),
          texts = h1_texts,
          status =
            (if length h1_tags = 1 then ''Good''
             else if length h1_tags > 1
             then ''Warning | It is generally recommended to only use one H1 Tag on a page.''
             else ''Missing'')\<rparr>)"

text \<open>The number of tags of a name in a document, counted over the tree.\<close>

fun tags_in :: "string \<Rightarrow> 'c page_element \<Rightarrow> nat" where
  "tags_in name (Elem n a cs) = (if n = name then 1 else 0) + sum_list (map (tags_in name) cs)"
| "tags_in name _ = 0"

definition number_of_tags :: "string \<Rightarrow> 'c page_element list \<Rightarrow> nat" where
  "number_of_tags name sp = sum_list (map (tags_in name) sp)"

text \<open>The same count for any test of a tag.\<close>

fun matching_in :: "('c page_element \<Rightarrow> bool) \<Rightarrow> 'c page_element \<Rightarrow> nat" where
  "matching_in P (Elem n a cs) =
     (if P (Elem n a cs) then 1 else 0) + sum_list (map (matching_in P) cs)"
| "matching_in P _ = 0"

definition number_matching ::
  "('c page_element \<Rightarrow> bool) \<Rightarrow> 'c page_element list \<Rightarrow> nat" where
  "number_matching P sp = sum_list (map (matching_in P) sp)"

section \<open>Images\<close>

record image_analysis =
  total_images :: int
  missing_alt :: int
  with_alt :: int

text \<open>The loop of \<open>analyze_images\<close> over the images, with its counter.\<close>

fun count_missing_alt :: "node list \<Rightarrow> int \<Rightarrow> int" where
  "count_missing_alt [] missing = missing"
| "count_missing_alt (img # images) missing =
     (let alt_text = py_strip (case attr img ''alt'' of None \<Rightarrow> [] | Some a \<Rightarrow> a)
      in if alt_text = [] then count_missing_alt images (missing + 1)
         else count_missing_alt images missing)"

definition analyze_images :: "soup \<Rightarrow> string \<Rightarrow> image_analysis" where
  "analyze_images sp base_url =
     (let images = find_all (named [''img'']) sp;
          total_images = int (length images);
          missing_alt = count_missing_alt images 0
      in \<lparr>total_images = total_images, missing_alt = missing_alt,
          with_alt = total_images - missing_alt\<rparr>)"

text \<open>
  An image has alt text when its \<open>alt\<close> attribute is there and is not empty once the
  white space at its ends is gone.
\<close>

definition has_alt :: "node \<Rightarrow> bool" where
  "has_alt img = (case attr img ''alt'' of None \<Rightarrow> False | Some a \<Rightarrow> py_strip a \<noteq> [])"

section \<open>Structured data\<close>

text \<open>
  What \<open>json.loads\<close> returns: \<open>None\<close>, a truth value, an integer, a float (the finite
  ones, as the rational they denote), a string, a list or a dictionary.
\<close>

datatype json =
    JNull
  | JBool bool
  | JInt int
  | JFloat rat
  | JStr string
  | JArr "json list"
  | JObj "(string \<times> json) list"

datatype py_exception =
    RequestException | JSONDecodeError | TypeError | AttributeError | ValueError
  | RecursionError

text \<open>
  \<open>tag.string\<close>: the single string of a tag, looked for through single children;
  \<open>None\<close> when a tag on the way has no child or several.
\<close>

fun tag_string :: "node \<Rightarrow> string option" where
  "tag_string (Text s) = Some s"
| "tag_string (Comment s) = Some s"
| "tag_string (Elem n a [c]) = tag_string c"
| "tag_string (Elem n a cs) = None"

text \<open>Lists and dictionaries cannot be members of a Python set.\<close>

fun hashable :: "json \<Rightarrow> bool" where
  "hashable (JArr xs) = False"
| "hashable (JObj kv) = False"
| "hashable _ = True"

text \<open>
  Python's \<open>==\<close> on the values that can be members of a set: truth values and numbers
  compare by their numeric value, everything else by kind and content.
\<close>

fun py_number :: "json \<Rightarrow> rat option" where
  "py_number (JBool b) = Some (if b then 1 else 0)"
| "py_number (JInt i) = Some (of_int i)"
| "py_number (JFloat q) = Some q"
| "py_number _ = None"

definition py_eq :: "json \<Rightarrow> json \<Rightarrow> bool" where
  "py_eq x y =
     (case (py_number x, py_number y) of
        (Some p, Some q) \<Rightarrow> p = q
      | (None, None) \<Rightarrow> x = y
      | _ \<Rightarrow> False)"

text \<open>A set keeps the first of the equal values added to it.\<close>

fun py_set :: "json list \<Rightarrow> json list" where
  "py_set [] = []"
| "py_set (x # xs) = x # py_set (filter (\<lambda>y. \<not> py_eq x y) xs)"

text \<open>The test of the inner loop: a dictionary with the key \<open>@type\<close> gives its value.\<close>

fun typed_value :: "json \<Rightarrow> json list" where
  "typed_value (JObj kv) = (case map_of kv ''@type'' of Some t \<Rightarrow> [t] | None \<Rightarrow> [])"
| "typed_value _ = []"

text \<open>What the body of the \<open>try\<close> appends to \<open>schema_types\<close> for a parsed value.\<close>

definition parsed_types :: "json \<Rightarrow> json list" where
  "parsed_types data =
     (case data of
        JObj kv \<Rightarrow> (if map_of kv ''@type'' \<noteq> None then typed_value data else [])
      | JArr items \<Rightarrow> concat (map typed_value items)
      | _ \<Rightarrow> [])"

text \<open>
  The exceptions that \<open>except (json.JSONDecodeError, TypeError)\<close> catches. (A
  \<open>ValueError\<close> that is not a \<open>JSONDecodeError\<close> is not among them.)
\<close>

definition caught :: "py_exception \<Rightarrow> bool" where
  "caught e = (e = JSONDecodeError \<or> e = TypeError)"

text \<open>
  One round of the loop over the JSON-LD scripts: what it appends to \<open>schema_types\<close>, or
  the exception that leaves the loop. \<open>loads\<close> is \<open>json.loads\<close> on a string: the value,
  or the exception it raises, which is \<open>JSONDecodeError\<close> for a text that is not JSON,
  but also \<open>RecursionError\<close> for a text nested too deep and \<open>ValueError\<close> for a number of
  too many digits. On the \<open>None\<close> of a script without a single string \<open>json.loads\<close>
  raises \<open>TypeError\<close>. A caught exception lets the loop go on; any other leaves the
  function.
\<close>

definition script_types ::
  "(string \<Rightarrow> py_exception + json) \<Rightarrow> node \<Rightarrow> py_exception + json list" where
  "script_types loads script =
     (case tag_string script of
        None \<Rightarrow> Inr []
      | Some s \<Rightarrow>
          (case loads s of
             Inl e \<Rightarrow> if caught e then Inr [] else Inl e
           | Inr data \<Rightarrow> Inr (parsed_types data)))"

text \<open>The loop, with the list collected so far.\<close>

fun collect_types ::
  "(string \<Rightarrow> py_exception + json) \<Rightarrow> node list \<Rightarrow> json list \<Rightarrow> py_exception + json list" where
  "collect_types loads [] schema_types = Inr schema_types"
| "collect_types loads (script # scripts) schema_types =
     (case script_types loads script of
        Inl e \<Rightarrow> Inl e
      | Inr ts \<Rightarrow> collect_types loads scripts (schema_types @ ts))"

text \<open>The test of \<open>find_all('script', type='application/ld+json')\<close>.\<close>

definition is_json_ld :: "node \<Rightarrow> bool" where
  "is_json_ld x = (named [''script''] x \<and> attr x ''type'' = Some ''application/ld+json'')"

record schema_analysis =
  has_schema :: bool
  json_ld_count :: int
  microdata_count :: int
  rdfa_count :: int
  schema_types :: "json set"

text \<open>
  \<open>check_schema_markup\<close>. An exception of the loop that is not caught leaves the
  function. \<open>list(set(schema_types))\<close> stands outside the \<open>try\<close>: it raises \<open>TypeError\<close>
  when a collected value cannot be hashed. The order of the list it builds is not
  determined, so the result holds the set of its members.
\<close>

definition check_schema_markup ::
  "(string \<Rightarrow> py_exception + json) \<Rightarrow> soup \<Rightarrow> py_exception + schema_analysis" where
  "check_schema_markup loads sp =
     (let json_ld = find_all is_json_ld sp;
          microdata = find_all (\<lambda>x. attr x ''itemscope'' \<noteq> None) sp;
          rdfa = find_all (\<lambda>x. attr x ''typeof'' \<noteq> None) sp;
          has_schema = (length json_ld > 0 \<or> length microdata > 0 \<or> length rdfa > 0)
      in case collect_types loads json_ld [] of
           Inl e \<Rightarrow> Inl e
         | Inr types \<Rightarrow>
             if list_all hashable types
             then Inr \<lparr>has_schema = has_schema,
                       json_ld_count = int (length json_ld),
                       microdata_count = int (length microdata),
                       rdfa_count = int (length rdfa),
                       schema_types = set (py_set types)\<rparr>
             else Inl TypeError)"

text \<open>
  A JSON-LD script is malformed when its text does not parse (\<open>json.loads\<close> raises, or
  the script has no single text), or when the value is neither a dictionary with
  \<open>@type\<close> nor a list holding such a dictionary.
\<close>

definition well_shaped :: "json \<Rightarrow> bool" where
  "well_shaped data =
     (case data of
        JObj kv \<Rightarrow> ''@type'' \<in> fst ` set kv
      | JArr items \<Rightarrow> list_ex (\<lambda>item. case item of JObj kv \<Rightarrow> ''@type'' \<in> fst ` set kv | _ \<Rightarrow> False) items
      | _ \<Rightarrow> False)"

definition malformed :: "(string \<Rightarrow> py_exception + json) \<Rightarrow> node \<Rightarrow> bool" where
  "malformed loads script =
     (case tag_string script of
        None \<Rightarrow> True
      | Some s \<Rightarrow> (case loads s of Inl e \<Rightarrow> True | Inr data \<Rightarrow> \<not> well_shaped data))"

section \<open>PageSpeed insights\<close>

text \<open>
  The outbound call is \<open>requests.get\<close>: it raises, or returns a response with a status
  code and a body. A request is the address with its query parameters.
\<close>

datatype http_response = Response nat string

type_synonym request = "string \<times> (string \<times> string) list"

record pagespeed =
  performance_score :: int
  fcp :: json
  fcp_numeric :: json

definition bind_exc :: "py_exception + 'a \<Rightarrow> ('a \<Rightarrow> py_exception + 'b) \<Rightarrow> py_exception + 'b" where
  "bind_exc m f = (case m of Inl e \<Rightarrow> Inl e | Inr x \<Rightarrow> f x)"

text \<open>\<open>response.raise_for_status()\<close> raises for the codes 400 to 599.\<close>

definition raise_for_status :: "http_response \<Rightarrow> py_exception + unit" where
  "raise_for_status r =
     (case r of Response code b \<Rightarrow>
        if 400 \<le> code \<and> code < 600 then Inl RequestException else Inr ())"

text \<open>
  \<open>response.json()\<close>: here \<open>loads\<close> gives \<open>None\<close> for a body it does not turn into a
  value; whatever the method raises then is caught by the handlers of the function.
\<close>

definition response_json :: "(string \<Rightarrow> json option) \<Rightarrow> http_response \<Rightarrow> py_exception + json" where
  "response_json loads r =
     (case r of Response code b \<Rightarrow>
        (case loads b of None \<Rightarrow> Inl RequestException | Some data \<Rightarrow> Inr data))"

text \<open>\<open>d.get(key, default)\<close>; only a dictionary has the method.\<close>

definition dict_get :: "json \<Rightarrow> string \<Rightarrow> json \<Rightarrow> py_exception + json" where
  "dict_get d k dflt =
     (case d of
        JObj kv \<Rightarrow> Inr (case map_of kv k of None \<Rightarrow> dflt | Some v \<Rightarrow> v)
      | _ \<Rightarrow> Inl AttributeError)"

text \<open>The truth of a value in a condition.\<close>

fun truthy :: "json \<Rightarrow> bool" where
  "truthy JNull = False"
| "truthy (JBool b) = b"
| "truthy (JInt i) = (i \<noteq> 0)"
| "truthy (JFloat q) = (q \<noteq> 0)"
| "truthy (JStr s) = (s \<noteq> [])"
| "truthy (JArr xs) = (xs \<noteq> [])"
| "truthy (JObj kv) = (kv \<noteq> [])"

definition api_url :: string where
  "api_url = ''https://www.googleapis.com/pagespeedonline/v5/runPagespeed''"

definition pagespeed_request :: "string \<Rightarrow> string \<Rightarrow> request" where
  "pagespeed_request api_key url =
     (api_url, [(''url'', url), (''key'', api_key), (''category'', ''performance'')])"

text \<open>
  The body of the \<open>try\<close> of \<open>get_pagespeed_insights\<close>. \<open>int_times_100\<close> is Python's
  \<open>int(v * 100)\<close> on a parsed value (floating point on a float), with the exception it
  raises on a value it cannot convert.
\<close>

definition pagespeed_try ::
  "(request \<Rightarrow> py_exception + http_response) \<Rightarrow> (string \<Rightarrow> json option) \<Rightarrow>
   (json \<Rightarrow> py_exception + int) \<Rightarrow> string \<Rightarrow> string \<Rightarrow> py_exception + pagespeed" where
  "pagespeed_try http_get loads int_times_100 api_key url =
     bind_exc (http_get (pagespeed_request api_key url)) (\<lambda>response.
     bind_exc (raise_for_status response) (\<lambda>_.
     bind_exc (response_json loads response) (\<lambda>data.
     bind_exc (dict_get data ''lighthouseResult'' (JObj [])) (\<lambda>lighthouse_result.
     bind_exc (dict_get lighthouse_result ''categories'' (JObj [])) (\<lambda>categories.
     bind_exc (dict_get categories ''performance'' (JObj [])) (\<lambda>performance.
     bind_exc (dict_get lighthouse_result ''audits'' (JObj [])) (\<lambda>audits.
     bind_exc (dict_get audits ''first-contentful-paint'' (JObj [])) (\<lambda>fcp_audit.
     bind_exc (dict_get performance ''score'' JNull) (\<lambda>score.
     bind_exc (if truthy score
               then bind_exc (dict_get performance ''score'' (JInt 0)) int_times_100
               else Inr 0) (\<lambda>performance_score.
     bind_exc (dict_get fcp_audit ''displayValue'' (JStr ''N/A'')) (\<lambda>fcp.
     bind_exc (dict_get fcp_audit ''numericValue'' (JInt 0)) (\<lambda>fcp_numeric.
     Inr \<lparr>performance_score = performance_score, fcp = fcp,
          fcp_numeric = fcp_numeric\<rparr>))))))))))))"

text \<open>
  \<open>get_pagespeed_insights\<close>, with the list of the outbound calls it made. Without a key
  it returns at once. Both handlers of the \<open>try\<close> return \<open>None\<close>.
\<close>

definition get_pagespeed_insights ::
  "(request \<Rightarrow> py_exception + http_response) \<Rightarrow> (string \<Rightarrow> json option) \<Rightarrow>
   (json \<Rightarrow> py_exception + int) \<Rightarrow> string option \<Rightarrow> string \<Rightarrow>
   request list \<times> pagespeed option" where
  "get_pagespeed_insights http_get loads int_times_100 api_key url =
     (case api_key of
        None \<Rightarrow> ([], None)
      | Some k \<Rightarrow>
          if k = [] then ([], None)
          else ([pagespeed_request k url],
                case pagespeed_try http_get loads int_times_100 k url of
                  Inl e \<Rightarrow> None
                | Inr r \<Rightarrow> Some r))"

text \<open>
  The PageSpeed part of the two reports, as the lines printed and the cells written.
  \<open>str_int\<close> and \<open>str_json\<close> are Python's formatting of an integer and of a parsed
  value; \<open>bolt\<close> is the pictograph at the head of the console line, in UTF-8.
\<close>

definition bolt :: string where
  "bolt = [char_of (226 :: nat), char_of (154 :: nat), char_of (161 :: nat)]"

definition display_pagespeed ::
  "(int \<Rightarrow> string) \<Rightarrow> (json \<Rightarrow> string) \<Rightarrow> pagespeed option \<Rightarrow> string list" where
  "display_pagespeed str_int str_json pagespeed_data =
     (case pagespeed_data of
        Some ps \<Rightarrow>
          [bolt @ '' PageSpeed Performance:'',
           ''   Performance Score: '' @ str_int (performance_score ps) @ ''/100'',
           ''   First Contentful Paint: '' @ str_json (fcp ps)]
      | None \<Rightarrow> [bolt @ '' PageSpeed Performance: Not available (API key not provided)''])"

definition pdf_pagespeed ::
  "(int \<Rightarrow> string) \<Rightarrow> (json \<Rightarrow> string) \<Rightarrow> pagespeed option \<Rightarrow> string list" where
  "pdf_pagespeed str_int str_json pagespeed_data =
     (case pagespeed_data of
        Some ps \<Rightarrow>
          [''Performance Score: '' @ str_int (performance_score ps) @ ''/100'',
           ''First Contentful Paint: '' @ str_json (fcp ps)]
      | None \<Rightarrow> [''PageSpeed data not available'', ''(API key not provided)''])"

section \<open>Wrapping in the PDF report\<close>

text \<open>
  The wrapping loop, with the cells it has written so far and the current line. A cell
  holds two blanks and the stripped line.
\<close>

fun wrap_loop :: "nat \<Rightarrow> string list \<Rightarrow> string \<Rightarrow> string list \<Rightarrow> string list \<times> string" where
  "wrap_loop budget [] line cells = (cells, line)"
| "wrap_loop budget (word # words) line cells =
     (if length (line @ word) < budget
      then wrap_loop budget words (line @ word @ '' '') cells
      else wrap_loop budget words (word @ '' '') (cells @ [''  '' @ py_strip line]))"

definition wrap_cells :: "nat \<Rightarrow> string \<Rightarrow> string list" where
  "wrap_cells budget s =
     (case wrap_loop budget (py_split s) [] [] of
        (cells, line) \<Rightarrow> if py_strip line \<noteq> [] then cells @ [''  '' @ py_strip line] else cells)"

definition title_cells :: "string \<Rightarrow> string list" where
  "title_cells title_tag =
     (if length title_tag > 70 then ''Title:'' # wrap_cells 65 title_tag
      else [''Title: '' @ title_tag])"

definition description_cells :: "string \<Rightarrow> string list" where
  "description_cells desc =
     (if length desc > 70 then ''Description:'' # wrap_cells 65 desc
      else [''Description: '' @ desc])"

text \<open>The cells of one H1 text, below its numbered heading.\<close>

definition h1_cells :: "string \<Rightarrow> string list" where
  "h1_cells h1_text =
     (if length h1_text > 60 then wrap_cells 55 h1_text else [''  '' @ h1_text])"

section \<open>The name of the report\<close>

text \<open>
  \<open>urlparse(url).netloc\<close> for a URL that starts with \<open>http://\<close> or \<open>https://\<close>, as
  \<open>run_audit\<close> has checked before: tabs, line feeds and carriage returns (9, 10, 13)
  are taken out of the URL, and the network location is what stands between the two
  slashes and the next \<open>/\<close>, \<open>?\<close> or \<open>#\<close>. (The \<open>ValueError\<close> that \<open>urlparse\<close> raises for
  a network location with an unpaired bracket is left out.)
\<close>

definition urlparse_netloc :: "string \<Rightarrow> string" where
  "urlparse_netloc url =
     takeWhile (\<lambda>c. c \<notin> set ''/?#'')
       (drop (if take 7 url = ''http://'' then 7 else 8)
          (filter (\<lambda>c. (of_char c :: nat) \<notin> set [9, 10, 13]) url))"

definition report_domain :: "string \<Rightarrow> string" where
  "report_domain url = py_replace (urlparse_netloc url) ''www.'' []"

definition pdf_filename :: "string \<Rightarrow> string" where
  "pdf_filename url = ''SEO_Audit_Report_'' @ report_domain url @ ''.pdf''"

section \<open>Changes of a document that the counts should not see\<close>

text \<open>
  \<open>map_hidden f\<close> puts \<open>f cs\<close> in the place of the contents \<open>cs\<close> of every \<open>script\<close> and
  \<open>style\<close> tag of a document (the first met on each path); \<open>f\<close> is free to put anything
  there. \<open>map_text f\<close> changes every text string by \<open>f\<close>.
\<close>

fun map_hidden ::
  "('c page_element list \<Rightarrow> 'c page_element list) \<Rightarrow> 'c page_element \<Rightarrow> 'c page_element" where
  "map_hidden f (Elem n a cs) =
     (if n \<in> set [''script'', ''style''] then Elem n a (f cs)
      else Elem n a (map (map_hidden f) cs))"
| "map_hidden f x = x"

fun map_text :: "('c list \<Rightarrow> 'c list) \<Rightarrow> 'c page_element \<Rightarrow> 'c page_element" where
  "map_text f (Text s) = Text (f s)"
| "map_text f (Comment s) = Comment s"
| "map_text f (Elem n a cs) = Elem n a (map (map_text f) cs)"





section \<open>Words and lines\<close>

text \<open>
  Notions for the wrapping loop. A word is not empty and has no white space. The current
  line of the loop is a group of words, each followed by a blank; a cell shows the
  stripped line behind two blanks. A group fits the budget when its stripped line is
  shorter than the budget or it has a single word at most.
\<close>

definition wordy :: "string \<Rightarrow> bool" where
  "wordy w = (w \<noteq> [] \<and> (\<forall>c\<in>set w. \<not> is_space c))"

definition line_of :: "string list \<Rightarrow> string" where
  "line_of g = concat (map (\<lambda>w. w @ '' '') g)"

definition fits :: "nat \<Rightarrow> string list \<Rightarrow> bool" where
  "fits B g = ((\<forall>w\<in>set g. wordy w) \<and> (length (py_strip (line_of g)) < B \<or> length g \<le> 1))"

definition cell_of :: "string list \<Rightarrow> string" where
  "cell_of g = ''  '' @ py_strip (line_of g)"

section \<open>Properties\<close>

declare py_count.simps [simp del]
declare py_replace.simps [simp del]

subsection \<open>Keyword frequency: the shape of the result\<close>

lemma count_keyword_shape:
  "\<exists>a b c :: nat. count_keyword d sp kw =
     \<lparr>total = int a, title = int b, headings = int c, body = max 0 (int a - int b - int c)\<rparr>"
proof (cases "find (named [''title'']) (decompose_all [''script'', ''style''] sp)")
  case None
  then show ?thesis
    unfolding count_keyword_def Let_def
    by (simp only: option.case) (metis int_ops(1))
next
  case (Some t)
  then show ?thesis
    unfolding count_keyword_def Let_def
    by (simp only: option.case) blast
qed

text \<open>
  Claim C1. Whatever the parser returns and the tables are, the four counts of
  \<open>calculate_keyword_frequency\<close> are not negative, \<open>body\<close> is
  \<open>max(0, total - title - headings)\<close>, and an empty document text or an empty keyword
  gives four zeros.
\<close>

theorem keyword_frequency_fields:
  "(let r = calculate_keyword_frequency d parse html_content keyword
    in 0 \<le> total r \<and> 0 \<le> title r \<and> 0 \<le> headings r \<and> 0 \<le> body r \<and>
       body r = max 0 (total r - title r - headings r) \<and>
       (html_content = [] \<or> keyword = [] \<longrightarrow>
          r = \<lparr>total = 0, title = 0, headings = 0, body = 0\<rparr>))"
proof (cases "html_content = [] \<or> keyword = []")
  case True
  then show ?thesis by (simp add: calculate_keyword_frequency_def)
next
  case False
  obtain a b c :: nat where
    "count_keyword d (parse html_content) keyword =
       \<lparr>total = int a, title = int b, headings = int c, body = max 0 (int a - int b - int c)\<rparr>"
    using count_keyword_shape by blast
  with False show ?thesis by (simp add: calculate_keyword_frequency_def)
qed

theorem keyword_frequency_fields_witness:
  "calculate_keyword_frequency latin_greek (\<lambda>h. [Elem ''p'' [] [Text h]]) [] (u ''seo'')
     = \<lparr>total = 0, title = 0, headings = 0, body = 0\<rparr> \<and>
   body (calculate_keyword_frequency latin_greek (\<lambda>h. [Elem ''title'' [] [Text h]])
     (u ''seo'') (u ''seo'')) = 0 \<and>
   total (calculate_keyword_frequency latin_greek (\<lambda>h. [Elem ''title'' [] [Text h]])
     (u ''seo'') (u ''seo'')) = 1"
  using keyword_frequency_fields [of latin_greek "\<lambda>h. [Elem ''p'' [] [Text h]]" "[]" "u ''seo''"]
    keyword_frequency_fields
      [of latin_greek "\<lambda>h. [Elem ''title'' [] [Text h]]" "u ''seo''" "u ''seo''"]
  by code_simp

subsection \<open>H1 tags\<close>

lemma named_Elem [simp]: "named names (Elem n a cs) = (n \<in> set names)"
  by (simp add: named_def)

lemma length_find_all_node_named:
  "length (find_all_node (named [name]) x) = tags_in name x"
proof (induction x)
  case (Elem n a cs)
  have "sum_list (map (\<lambda>c. length (find_all_node (named [name]) c)) cs)
          = sum_list (map (tags_in name) cs)"
    using Elem.IH by (intro arg_cong [where f = sum_list] map_cong) auto
  then show ?case
    by (simp add: length_concat comp_def)
qed simp_all

lemma length_find_all_named:
  "length (find_all (named [name]) sp) = number_of_tags name sp"
  by (simp add: find_all_def number_of_tags_def length_concat comp_def
      length_find_all_node_named)

text \<open>
  Claim C3. For every parsed document, the \<open>count\<close> of \<open>analyze_h1_tags\<close> is the number of
  \<open>h1\<close> tags of the document, and the status is \<open>Missing\<close> exactly when the count is 0,
  \<open>Good\<close> exactly when it is 1, and the warning (the text the code gives it) exactly when
  it is greater than 1.
\<close>

theorem h1_count_and_status:
  "(let r = analyze_h1_tags sp
    in count r = int (number_of_tags ''h1'' sp) \<and>
       (status r = ''Missing'') = (count r = 0) \<and>
       (status r = ''Good'') = (count r = 1) \<and>
       (status r = ''Warning | It is generally recommended to only use one H1 Tag on a page.'')
         = (count r > 1))"
  by (simp add: analyze_h1_tags_def Let_def length_find_all_named)

theorem h1_count_and_status_witness:
  "status (analyze_h1_tags [Elem ''body'' [] [Elem ''h1'' [] [Text ''a''], Elem ''h1'' [] []]])
     = ''Warning | It is generally recommended to only use one H1 Tag on a page.'' \<and>
   count (analyze_h1_tags [Elem ''body'' [] [Elem ''h1'' [] [Text ''a''], Elem ''h1'' [] []]]) = 2 \<and>
   status (analyze_h1_tags [Elem ''h1'' [] [Text ''a'']]) = ''Good'' \<and>
   status (analyze_h1_tags [Text ''a'']) = ''Missing''"
  using h1_count_and_status [of "[Elem ''body'' [] [Elem ''h1'' [] [Text ''a''], Elem ''h1'' [] []]]"]
    h1_count_and_status [of "[Elem ''h1'' [] [Text ''a'']]"]
    h1_count_and_status [of "[Text ''a'']"]
  by code_simp

subsection \<open>Images\<close>

lemma py_strip_Nil [simp]: "py_strip [] = []"
  by (simp add: py_strip_def)

lemma missing_step:
  "(py_strip (case attr img ''alt'' of None \<Rightarrow> [] | Some a \<Rightarrow> a) = []) = (\<not> has_alt img)"
  by (simp add: has_alt_def split: option.splits)

lemma count_missing_alt_eq:
  "count_missing_alt images m = m + int (length (filter (\<lambda>i. \<not> has_alt i) images))"
  by (induction images arbitrary: m) (simp_all add: missing_step Let_def)

text \<open>
  Claim C4. For every parsed document, \<open>analyze_images\<close> returns
  \<open>with_alt + missing_alt = total_images\<close> with none of the three negative; the total is
  the number of \<open>img\<close> tags, \<open>with_alt\<close> counts the images whose \<open>alt\<close> attribute is there
  and not empty after stripping, and \<open>missing_alt\<close> counts the others (a missing
  attribute reads as the empty string).
\<close>

theorem image_counts:
  "(let images = find_all (named [''img'']) sp; r = analyze_images sp base_url
    in with_alt r + missing_alt r = total_images r \<and>
       0 \<le> total_images r \<and> 0 \<le> with_alt r \<and> 0 \<le> missing_alt r \<and>
       total_images r = int (number_of_tags ''img'' sp) \<and>
       with_alt r = int (length (filter has_alt images)) \<and>
       missing_alt r = int (length (filter (\<lambda>i. \<not> has_alt i) images)))"
proof -
  let ?images = "find_all (named [''img'']) sp"
  have "length (filter has_alt ?images) + length (filter (\<lambda>i. \<not> has_alt i) ?images)
          = length ?images"
    by (rule sum_length_filter_compl)
  then show ?thesis
    by (simp add: analyze_images_def Let_def count_missing_alt_eq
        length_find_all_named [symmetric])
qed

theorem image_counts_witness:
  "analyze_images [Elem ''img'' [(''alt'', ''  '')] [], Elem ''img'' [(''src'', ''a.png'')] [],
      Elem ''p'' [] [Elem ''img'' [(''alt'', '' logo '')] []]] ''http://x''
   = \<lparr>total_images = 3, missing_alt = 2, with_alt = 1\<rparr>"
  using image_counts [of "[Elem ''img'' [(''alt'', ''  '')] [], Elem ''img'' [(''src'', ''a.png'')] [],
      Elem ''p'' [] [Elem ''img'' [(''alt'', '' logo '')] []]]" "''http://x''"]
  by code_simp

subsection \<open>Meta description\<close>

text \<open>
  What holds of \<open>extract_meta_description\<close>. Let \<open>m\<close> be the first \<open>meta\<close> tag whose \<open>name\<close>
  is \<open>description\<close>. When its \<open>content\<close> attribute is there and not empty after
  stripping, the result is the stripped content. When there is no such tag the result is
  \<open>No meta description found\<close>, and so it is when the tag is there with no \<open>content\<close> or
  with the empty string as \<open>content\<close>.
\<close>

lemma meta_description_cases:
  "(let first = find (\<lambda>x. named [''meta''] x \<and> attr x ''name'' = Some ''description'') sp;
        r = extract_meta_description sp
    in (first = Some m \<and> attr m ''content'' = Some c \<and> py_strip c \<noteq> [] \<longrightarrow> r = py_strip c) \<and>
       (first = None \<longrightarrow> r = ''No meta description found'') \<and>
       (first = Some m \<and> (attr m ''content'' = None \<or> attr m ''content'' = Some [])
            \<longrightarrow> r = ''No meta description found''))"
  by (auto simp: extract_meta_description_def Let_def split: option.splits)

lemma meta_description_cases_example:
  "extract_meta_description
     [Elem ''head'' [] [Elem ''meta'' [(''name'', ''description''), (''content'', '' A page '')] [],
        Elem ''meta'' [(''name'', ''description''), (''content'', ''second'')] []]] = ''A page'' \<and>
   extract_meta_description
     [Elem ''head'' [] [Elem ''meta'' [(''name'', ''description''), (''content'', [])] []]]
     = ''No meta description found'' \<and>
   extract_meta_description [Elem ''head'' [] [Elem ''meta'' [(''name'', ''keywords'')] []]]
     = ''No meta description found''"
  using meta_description_cases
      [of "[Elem ''head'' [] [Elem ''meta'' [(''name'', ''description''), (''content'', '' A page '')] [],
        Elem ''meta'' [(''name'', ''description''), (''content'', ''second'')] []]]"
          "Elem ''meta'' [(''name'', ''description''), (''content'', '' A page '')] []" "'' A page ''"]
    meta_description_cases
      [of "[Elem ''head'' [] [Elem ''meta'' [(''name'', ''description''), (''content'', [])] []]]"
          "Elem ''meta'' [(''name'', ''description''), (''content'', [])] []" "[]"]
    meta_description_cases
      [of "[Elem ''head'' [] [Elem ''meta'' [(''name'', ''keywords'')] []]]" "Text []" "[]"]
  by code_simp

text \<open>
  Claim C6. The claim does not hold of the code for a \<open>content\<close> of white space only:
  it is empty after stripping, so the claim asks for \<open>No meta description found\<close>, as
  for a document without the tag. But the code tests the attribute before it strips
  it: the three blanks are true in the condition, and the stripped, empty string is
  returned. (\<open>analyze_images\<close> strips before it tests: an \<open>alt\<close> of three blanks counts as
  missing.)
\<close>

theorem meta_description_blank_content:
  "extract_meta_description
     [Elem ''head'' [] [Elem ''meta'' [(''name'', ''description''), (''content'', ''   '')] []]] = [] \<and>
   py_strip ''   '' = [] \<and>
   extract_meta_description [Elem ''head'' [] []] = ''No meta description found'' \<and>
   missing_alt (analyze_images [Elem ''img'' [(''alt'', ''   '')] []] ''http://x'') = 1"
  by code_simp

subsection \<open>Counting occurrences\<close>

lemma py_count_prefix:
  "sub \<noteq> [] \<Longrightarrow> py_count (sub @ rest) sub = 1 + py_count rest sub"
  by (subst py_count.simps) simp

lemma py_count_skip:
  "sub \<noteq> [] \<Longrightarrow> \<not> prefix sub (c # s) \<Longrightarrow> py_count (c # s) sub = py_count s sub"
proof -
  assume a: "sub \<noteq> []" "\<not> prefix sub (c # s)"
  show ?thesis
  proof (cases "length (c # s) < length sub")
    case True
    then have "length s < length sub" by simp
    with True a show ?thesis
      by (subst py_count.simps, subst (2) py_count.simps) simp
  next
    case False
    from a have "take (length sub) (c # s) \<noteq> sub"
      by (metis take_is_prefix)
    with False a show ?thesis
      by (subst py_count.simps) simp
  qed
qed

lemma py_count_short:
  "sub \<noteq> [] \<Longrightarrow> length s < length sub \<Longrightarrow> py_count s sub = 0"
  by (subst py_count.simps) simp

lemma py_count_bound:
  "sub \<noteq> [] \<Longrightarrow> py_count s sub * length sub \<le> length s"
proof (induction s sub rule: py_count.induct)
  case (1 s sub)
  show ?case
  proof (cases "length s < length sub")
    case True
    with 1 show ?thesis by (simp add: py_count_short)
  next
    case False
    show ?thesis
    proof (cases "take (length sub) s = sub")
      case True
      with False 1 have "py_count (drop (length sub) s) sub * length sub \<le> length s - length sub"
        by simp
      moreover have "py_count s sub = 1 + py_count (drop (length sub) s) sub"
        using True 1(3) False by (subst py_count.simps) simp
      ultimately show ?thesis using False by simp
    next
      case True': False
      with False 1 have "py_count (tl s) sub * length sub \<le> length s - 1"
        by simp
      moreover have "py_count s sub = py_count (tl s) sub"
        using True' 1(3) False by (subst py_count.simps) simp
      ultimately show ?thesis by simp
    qed
  qed
qed

lemma py_count_replicate:
  "0 < k \<Longrightarrow> py_count (replicate n c) (replicate k c) = n div k"
proof (induction n rule: less_induct)
  case (less n)
  show ?case
  proof (cases "n < k")
    case True
    with less.prems show ?thesis by (simp add: py_count_short)
  next
    case False
    then have "replicate n c = replicate k c @ replicate (n - k) c"
      by (simp add: replicate_add [symmetric])
    moreover have "py_count (replicate (n - k) c) (replicate k c) = (n - k) div k"
      using less.prems False by (intro less.IH) simp_all
    ultimately show ?thesis
      using less.prems False by (simp add: py_count_prefix le_div_geq)
  qed
qed


text \<open>
  Claim C10. The keyword is counted as \<open>str.count\<close> counts: from the left, and after a
  match the scan goes on behind the match, so occurrences that overlap one already
  counted are not counted. A match at the front adds one to the count of what follows
  it; a position without a match is passed over; the counted occurrences fit side by
  side into the text; \<open>k\<close> equal characters are counted \<open>n div k\<close> times in \<open>n\<close> of them.
  The keyword \<open>aa\<close> is counted twice in \<open>aaaa\<close>, also as the total of a document with
  that text.
\<close>

theorem count_non_overlapping:
  "(sub \<noteq> [] \<longrightarrow>
      py_count (sub @ rest) sub = 1 + py_count rest sub \<and>
      (\<not> prefix sub (c # s) \<longrightarrow> py_count (c # s) sub = py_count s sub) \<and>
      py_count s sub * length sub \<le> length s) \<and>
   (0 < k \<longrightarrow> py_count (replicate n a) (replicate k a) = n div k) \<and>
   py_count ''aaaa'' ''aa'' = 2 \<and>
   total (calculate_keyword_frequency latin_greek (\<lambda>h. [Elem ''p'' [] [Text (u ''aaaa'')]]) html
      (u ''aa''))
     = (if html = [] then 0 else 2)"
proof -
  have "py_count ''aaaa'' ''aa'' = 2" by code_simp
  moreover have "total (count_keyword latin_greek [Elem ''p'' [] [Text (u ''aaaa'')]] (u ''aa'')) = 2"
    by code_simp
  ultimately show ?thesis
    by (simp add: py_count_prefix py_count_skip py_count_bound py_count_replicate
        calculate_keyword_frequency_def u_def)
qed

theorem count_non_overlapping_witness:
  "py_count ''aaaa'' ''aa'' = 1 + py_count ''aa'' ''aa'' \<and>
   py_count ''baa'' ''aa'' = py_count ''aa'' ''aa'' \<and>
   py_count (replicate 7 (CHR ''a'')) (replicate 2 (CHR ''a'')) = 3"
  using count_non_overlapping [of "''aa''" "''aa''" "CHR ''b''" "''aa''" 2 7 "CHR ''a''" "[]"]
  by (simp add: prefix_def)

subsection \<open>The name of the report\<close>

text \<open>
  Claim C9. The name of the report is \<open>SEO_Audit_Report_<domain>.pdf\<close>, and for
  \<open>https://www.example.com/shop?x=1\<close> the domain is \<open>example.com\<close>. But \<open>replace\<close> takes
  every \<open>www.\<close> out of the network location, not only one at its head: for
  \<open>https://mywww.com/\<close>, whose network location is \<open>mywww.com\<close>, the code names the
  report \<open>SEO_Audit_Report_mycom.pdf\<close>.
\<close>

theorem pdf_filename_inner_www:
  "pdf_filename ''https://mywww.com/'' = ''SEO_Audit_Report_mycom.pdf'' \<and>
   urlparse_netloc ''https://mywww.com/'' = ''mywww.com'' \<and>
   pdf_filename ''https://www.example.com/shop?x=1'' = ''SEO_Audit_Report_example.com.pdf''"
  by code_simp

subsection \<open>Wrapping\<close>

lemma is_space_blank [simp]: "is_space (CHR '' '')"
  by (simp add: is_space_def)

lemma split_acc_spaces: "\<forall>c\<in>set b. is_space c \<Longrightarrow> split_acc w b = split_acc w []"
  by (induction b arbitrary: w) auto

lemma split_acc_append_spaces:
  "\<forall>c\<in>set b. is_space c \<Longrightarrow> split_acc w (a @ b) = split_acc w a"
  by (induction a arbitrary: w) (auto simp: split_acc_spaces)

lemma split_acc_dropWhile: "split_acc [] (dropWhile is_space s) = split_acc [] s"
  by (induction s) auto

lemma py_split_strip: "py_split (py_strip s) = py_split s"
proof -
  let ?d = "dropWhile is_space s"
  have "?d = rev (dropWhile is_space (rev ?d)) @ rev (takeWhile is_space (rev ?d))"
    by (metis rev_append rev_rev_ident takeWhile_dropWhile_id)
  moreover have "\<forall>c\<in>set (rev (takeWhile is_space (rev ?d))). is_space c"
    by (auto dest: set_takeWhileD)
  ultimately have "split_acc [] ?d = split_acc [] (rev (dropWhile is_space (rev ?d)))"
    by (metis split_acc_append_spaces)
  then show ?thesis
    by (simp add: py_split_def py_strip_def split_acc_dropWhile)
qed

lemma split_acc_word:
  "\<forall>c\<in>set w. \<not> is_space c \<Longrightarrow> split_acc acc (w @ rest) = split_acc (acc @ w) rest"
  by (induction w arbitrary: acc) auto

lemma py_split_line_of: "\<forall>w\<in>set g. wordy w \<Longrightarrow> py_split (line_of g) = g"
proof (induction g)
  case Nil
  then show ?case by (simp add: py_split_def line_of_def)
next
  case (Cons w g)
  then have w: "w \<noteq> []" "\<forall>c\<in>set w. \<not> is_space c" by (auto simp: wordy_def)
  have "split_acc [] (w @ '' '' @ line_of g) = split_acc w ('' '' @ line_of g)"
    using split_acc_word [OF w(2), of "[]"] by simp
  also have "\<dots> = w # split_acc [] (line_of g)"
    using w(1) by simp
  finally show ?case using Cons by (simp add: py_split_def line_of_def)
qed

lemma split_acc_wordy:
  "\<forall>c\<in>set acc. \<not> is_space c \<Longrightarrow> \<forall>w\<in>set (split_acc acc s). wordy w"
proof (induction s arbitrary: acc)
  case Nil
  then show ?case by (simp add: wordy_def)
next
  case (Cons c s)
  show ?case
  proof (cases "is_space c")
    case True
    with Cons.prems Cons.IH [of "[]"] show ?thesis by (simp add: wordy_def)
  next
    case False
    with Cons.prems Cons.IH [of "acc @ [c]"] show ?thesis by simp
  qed
qed

lemma py_split_wordy: "\<forall>w\<in>set (py_split s). wordy w"
  using split_acc_wordy [of "[]"] by (simp add: py_split_def)

lemma py_strip_snoc_space: "is_space c \<Longrightarrow> py_strip (x @ [c]) = py_strip x"
proof (cases "\<forall>y\<in>set x. is_space y")
  case True
  assume "is_space c"
  with True have "\<forall>y\<in>set (x @ [c]). is_space y" by simp
  then have "dropWhile is_space (x @ [c]) = []"
    by (simp only: dropWhile_eq_Nil_conv)
  moreover from True have "dropWhile is_space x = []"
    by (simp only: dropWhile_eq_Nil_conv)
  ultimately show ?thesis by (simp only: py_strip_def)
next
  case False
  assume c: "is_space c"
  from False obtain y where "y \<in> set x" "\<not> is_space y" by blast
  then have "dropWhile is_space (x @ [c]) = dropWhile is_space x @ [c]"
    by (rule dropWhile_append1)
  with c show ?thesis by (simp add: py_strip_def)
qed

lemma length_py_strip: "length (py_strip x) \<le> length x"
  unfolding py_strip_def
  by (metis length_rev length_dropWhile_le le_trans)

lemma dropWhile_none: "\<forall>c\<in>set w. \<not> P c \<Longrightarrow> dropWhile P w = w"
  by (cases w) simp_all

lemma py_strip_wordy: "wordy w \<Longrightarrow> py_strip w = w"
  by (simp add: wordy_def py_strip_def dropWhile_none)

lemma line_of_snoc: "line_of (g @ [w]) = line_of g @ w @ '' ''"
  by (simp add: line_of_def)

lemma strip_line_snoc: "length (py_strip (line_of (g @ [w]))) \<le> length (line_of g @ w)"
proof -
  have "py_strip (line_of (g @ [w])) = py_strip (line_of g @ w)"
    using py_strip_snoc_space [of "CHR '' ''" "line_of g @ w"] by (simp add: line_of_snoc)
  then show ?thesis by (simp only: length_py_strip)
qed

lemma strip_line_single: "wordy w \<Longrightarrow> py_strip (line_of [w]) = w"
  using py_strip_snoc_space [of "CHR '' ''" w] by (simp add: line_of_def py_strip_wordy)

lemma wrap_loop_groups:
  "\<forall>w\<in>set ws. wordy w \<Longrightarrow> fits B g \<Longrightarrow>
   \<exists>groups g'. wrap_loop B ws (line_of g) cells = (cells @ map cell_of groups, line_of g') \<and>
      concat groups @ g' = g @ ws \<and> (\<forall>grp\<in>set groups. fits B grp) \<and> fits B g'"
proof (induction ws arbitrary: g cells)
  case Nil
  have "wrap_loop B [] (line_of g) cells = (cells @ map cell_of [], line_of g) \<and>
      concat [] @ g = g @ [] \<and> (\<forall>grp\<in>set []. fits B grp) \<and> fits B g"
    using Nil by simp
  then show ?case by blast
next
  case (Cons w ws)
  then have w: "wordy w" and ws: "\<forall>w\<in>set ws. wordy w" by simp_all
  show ?case
  proof (cases "length (line_of g @ w) < B")
    case True
    have "fits B (g @ [w])"
      using Cons.prems(2) w True strip_line_snoc [of g w] by (auto simp: fits_def)
    from Cons.IH [OF ws this, of cells] obtain groups g' where
      "wrap_loop B ws (line_of (g @ [w])) cells = (cells @ map cell_of groups, line_of g')"
      "concat groups @ g' = (g @ [w]) @ ws" "\<forall>grp\<in>set groups. fits B grp" "fits B g'"
      by blast
    with True show ?thesis by (auto simp: line_of_snoc)
  next
    case False
    have "fits B [w]" using w by (simp add: fits_def)
    from Cons.IH [OF ws this, of "cells @ [cell_of g]"] obtain groups g' where
      *: "wrap_loop B ws (line_of [w]) (cells @ [cell_of g])
            = ((cells @ [cell_of g]) @ map cell_of groups, line_of g')"
      "concat groups @ g' = [w] @ ws" "\<forall>grp\<in>set groups. fits B grp" "fits B g'"
      by blast
    have "wrap_loop B (w # ws) (line_of g) cells = (cells @ map cell_of (g # groups), line_of g')"
      using False * by (simp add: cell_of_def line_of_def)
    moreover have "concat (g # groups) @ g' = g @ w # ws" using * by simp
    moreover have "\<forall>grp\<in>set (g # groups). fits B grp" using * Cons.prems(2) by simp
    ultimately show ?thesis using * by blast
  qed
qed

lemma wrap_cells_groups:
  "\<exists>groups. wrap_cells B s = map cell_of groups \<and> concat groups = py_split s \<and>
     (\<forall>grp\<in>set groups. fits B grp)"
proof -
  have "fits B []" by (simp add: fits_def)
  from wrap_loop_groups [OF py_split_wordy this, of s "[]"] obtain groups g' where
    *: "wrap_loop B (py_split s) [] [] = (map cell_of groups, line_of g')"
    "concat groups @ g' = py_split s" "\<forall>grp\<in>set groups. fits B grp" "fits B g'"
    by (auto simp: line_of_def)
  show ?thesis
  proof (cases "py_strip (line_of g') \<noteq> []")
    case True
    with * have "wrap_cells B s = map cell_of (groups @ [g'])"
      by (simp add: wrap_cells_def cell_of_def)
    with * show ?thesis by (intro exI [of _ "groups @ [g']"]) simp
  next
    case False
    have "py_split (py_strip (line_of g')) = g'"
      using * by (simp add: py_split_strip py_split_line_of fits_def)
    with False have "g' = []" by (simp add: py_split_def)
    with * False have "wrap_cells B s = map cell_of groups"
      by (simp add: wrap_cells_def)
    with * \<open>g' = []\<close> show ?thesis by (intro exI [of _ groups]) simp
  qed
qed


lemma cell_of_parts: "take 2 (cell_of g) = ''  ''" "drop 2 (cell_of g) = py_strip (line_of g)"
  by (simp_all add: cell_of_def)

lemma fits_words: "fits B g \<Longrightarrow> py_split (py_strip (line_of g)) = g"
  by (simp add: py_split_strip py_split_line_of fits_def)

lemma fits_line:
  "0 < B \<Longrightarrow> fits B g \<Longrightarrow> length (py_strip (line_of g)) < B \<or> py_strip (line_of g) \<in> set g"
proof (cases g)
  case Nil
  assume "0 < B"
  with Nil show ?thesis by (simp add: line_of_def)
next
  case (Cons w g')
  assume f: "fits B g"
  show ?thesis
  proof (cases "length (py_strip (line_of g)) < B")
    case False
    with f Cons have "g = [w]" "wordy w" by (simp_all add: fits_def)
    then show ?thesis by (simp add: strip_line_single)
  qed simp
qed

text \<open>
  Claim C8, as amended. In the wrapping loop a word is added to the current line while
  line and word together are shorter than the budget, otherwise the line is written and
  the word starts the next one. The words of the cells written, in order, are the words
  of the text: no word is split. A written line is shorter than the budget or is one
  word of the text alone; so when no word is longer than the budget, no line is. The
  title and the description are wrapped so at 65 when they are longer than 70, an H1
  text at 55 when it is longer than 60.
\<close>

theorem wrapped_lines:
  "(length (line @ word) < budget \<longrightarrow>
      wrap_loop budget (word # words) line cells
        = wrap_loop budget words (line @ word @ '' '') cells) \<and>
   (\<not> length (line @ word) < budget \<longrightarrow>
      wrap_loop budget (word # words) line cells
        = wrap_loop budget words (word @ '' '') (cells @ [''  '' @ py_strip line])) \<and>
   concat (map (\<lambda>c. py_split (drop 2 c)) (wrap_cells budget s)) = py_split s \<and>
   (0 < budget \<longrightarrow>
      (\<forall>c\<in>set (wrap_cells budget s).
          take 2 c = ''  '' \<and> (length (drop 2 c) < budget \<or> drop 2 c \<in> set (py_split s)))) \<and>
   (0 < budget \<and> (\<forall>w\<in>set (py_split s). length w \<le> budget) \<longrightarrow>
      (\<forall>c\<in>set (wrap_cells budget s). length (drop 2 c) \<le> budget)) \<and>
   (70 < length s \<longrightarrow> title_cells s = ''Title:'' # wrap_cells 65 s \<and>
      description_cells s = ''Description:'' # wrap_cells 65 s) \<and>
   (60 < length s \<longrightarrow> h1_cells s = wrap_cells 55 s)"
proof -
  obtain groups where g: "wrap_cells budget s = map cell_of groups"
    "concat groups = py_split s" "\<forall>grp\<in>set groups. fits budget grp"
    using wrap_cells_groups by blast
  have a: "concat (map (\<lambda>c. py_split (drop 2 c)) (wrap_cells budget s)) = py_split s"
  proof -
    have "map (\<lambda>grp. py_split (drop 2 (cell_of grp))) groups = groups"
      using g(3) by (intro map_idI) (auto simp: cell_of_parts intro: fits_words)
    then have "map (\<lambda>c. py_split (drop 2 c)) (map cell_of groups) = groups"
      by (simp add: comp_def)
    with g show ?thesis by simp
  qed
  have b: "take 2 c = ''  '' \<and> (length (drop 2 c) < budget \<or> drop 2 c \<in> set (py_split s))"
    if "0 < budget" "c \<in> set (wrap_cells budget s)" for c
  proof -
    from that g obtain grp where grp: "grp \<in> set groups" "c = cell_of grp" by auto
    with g have "fits budget grp" by simp
    moreover have "set grp \<subseteq> set (py_split s)"
      using grp(1) by (auto simp flip: g(2))
    ultimately show ?thesis
      using fits_line [OF that(1), of grp] grp(2) by (auto simp: cell_of_parts)
  qed
  have c: "length (drop 2 c) \<le> budget"
    if "0 < budget" "\<forall>w\<in>set (py_split s). length w \<le> budget" "c \<in> set (wrap_cells budget s)" for c
    using b [OF that(1) that(3)] that(2) by auto
  show ?thesis
    using a b c by (simp add: title_cells_def description_cells_def h1_cells_def)
qed

theorem wrapped_lines_witness:
  "wrap_cells 8 ''aaa bbb cc d'' = [''  aaa bbb'', ''  cc d''] \<and>
   wrap_loop 8 [''bbb'', ''cc''] ''aaa '' [] = wrap_loop 8 [''cc''] ''aaa bbb '' [] \<and>
   wrap_loop 8 [''cc'', ''d''] ''aaa bbb '' [] = wrap_loop 8 [''d''] ''cc '' [''  aaa bbb'']"
  using wrapped_lines [of "''aaa ''" "''bbb''" 8 "[''cc'']" "[]" "''aaa bbb cc d''"]
    wrapped_lines [of "''aaa bbb ''" "''cc''" 8 "[''d'']" "[]" "''aaa bbb cc d''"]
  by code_simp

text \<open>
  Claim C8 as it stands fails on a long word: a title of 71 letters without a blank is
  one word; the loop writes an empty line, then the word whole, 71 characters under a
  budget of 65.
\<close>

theorem wrapped_line_long_word:
  "title_cells (replicate 71 (CHR ''a'')) = [''Title:'', ''  '', ''  '' @ replicate 71 (CHR ''a'')] \<and>
   length (drop 2 (title_cells (replicate 71 (CHR ''a'')) ! 2)) = 71 \<and>
   py_split (replicate 71 (CHR ''a'')) = [replicate 71 (CHR ''a'')]"
  by code_simp

subsection \<open>Structured data\<close>

lemma length_find_all_node: "length (find_all_node P x) = matching_in P x"
proof (induction x)
  case (Elem n a cs)
  have "sum_list (map (\<lambda>c. length (find_all_node P c)) cs) = sum_list (map (matching_in P) cs)"
    using Elem.IH by (intro arg_cong [where f = sum_list] map_cong) auto
  then show ?case
    by (simp add: length_concat comp_def)
qed simp_all

lemma length_find_all: "length (find_all P sp) = number_matching P sp"
  by (simp add: find_all_def number_matching_def length_concat comp_def length_find_all_node)

lemma collect_types_caught:
  "\<forall>s\<in>set scripts. \<exists>ts. script_types loads s = Inr ts \<Longrightarrow>
   collect_types loads scripts acc
     = Inr (acc @ concat (map (\<lambda>s. case script_types loads s of Inr ts \<Rightarrow> ts | Inl e \<Rightarrow> []) scripts))"
proof (induction scripts arbitrary: acc)
  case Nil
  show ?case by simp
next
  case (Cons s scripts)
  from Cons.prems obtain ts where ts: "script_types loads s = Inr ts" by auto
  from Cons.prems have "\<forall>s\<in>set scripts. \<exists>ts. script_types loads s = Inr ts" by simp
  from Cons.IH [OF this, of "acc @ ts"] ts show ?case by simp
qed

lemma collect_types_raise:
  "script_types loads s = Inl e \<Longrightarrow> collect_types loads (s # scripts) acc = Inl e"
  by simp

lemma typed_value_Nil:
  "\<not> (case item of JObj kv \<Rightarrow> ''@type'' \<in> fst ` set kv | _ \<Rightarrow> False) \<Longrightarrow> typed_value item = []"
  by (cases item) (auto simp: map_of_eq_None_iff split: option.splits)

lemma not_well_shaped_no_types: "\<not> well_shaped data \<Longrightarrow> parsed_types data = []"
proof (cases data)
  case (JObj kv)
  assume "\<not> well_shaped data"
  with JObj show ?thesis by (simp add: well_shaped_def parsed_types_def map_of_eq_None_iff)
next
  case (JArr items)
  assume "\<not> well_shaped data"
  with JArr have "\<forall>item\<in>set items. typed_value item = []"
    by (auto simp: well_shaped_def list_ex_iff intro: typed_value_Nil)
  with JArr show ?thesis by (simp add: parsed_types_def)
qed (simp_all add: parsed_types_def)

lemma malformed_caught_no_types:
  "malformed loads s \<Longrightarrow>
   (\<forall>str e. tag_string s = Some str \<and> loads str = Inl e \<longrightarrow> caught e) \<Longrightarrow>
   script_types loads s = Inr []"
  by (auto simp: malformed_def script_types_def not_well_shaped_no_types
      split: option.splits sum.splits)

lemma malformed_escape:
  "tag_string s = Some str \<Longrightarrow> loads str = Inl e \<Longrightarrow> \<not> caught e \<Longrightarrow>
   malformed loads s \<and> script_types loads s = Inl e"
  by (simp add: malformed_def script_types_def)

lemma concat_map_filter_nonempty:
  "\<forall>x\<in>set xs. \<not> P x \<longrightarrow> f x = [] \<Longrightarrow> concat (map f (filter P xs)) = concat (map f xs)"
  by (induction xs) auto

lemma script_types_no_escape:
  "\<forall>str e. tag_string s = Some str \<and> loads str = Inl e \<longrightarrow> caught e \<Longrightarrow>
   \<exists>ts. script_types loads s = Inr ts"
  by (auto simp: script_types_def split: option.splits sum.splits)

text \<open>
  What holds when \<open>json.loads\<close> raises, on the scripts of the document, nothing but
  what the handler catches: a malformed script adds nothing to the collected types, the
  function raises only when a type of a well-formed script cannot be hashed, its set of
  types is the set of their types, and \<open>json_ld_count\<close> counts every JSON-LD script.
\<close>

lemma json_ld_types_when_caught:
  assumes "\<forall>s\<in>set (find_all is_json_ld sp). \<forall>str e.
             tag_string s = Some str \<and> loads str = Inl e \<longrightarrow> caught e"
  shows "(let json_ld = find_all is_json_ld sp;
              types = concat (map (\<lambda>s. case script_types loads s of Inr ts \<Rightarrow> ts | Inl e \<Rightarrow> [])
                         (filter (\<lambda>s. \<not> malformed loads s) json_ld))
          in case check_schema_markup loads sp of
               Inl e \<Rightarrow> e = TypeError \<and> \<not> list_all hashable types
             | Inr r \<Rightarrow> list_all hashable types \<and>
                 json_ld_count r = int (number_matching is_json_ld sp) \<and>
                 schema_types r = set (py_set types))"
proof -
  let ?json_ld = "find_all is_json_ld sp"
  let ?block = "\<lambda>s. case script_types loads s of Inr ts \<Rightarrow> ts | Inl e \<Rightarrow> []"
  have "\<forall>s\<in>set ?json_ld. \<exists>ts. script_types loads s = Inr ts"
    using assms by (auto intro!: script_types_no_escape)
  from collect_types_caught [OF this, of "[]"]
  have c: "collect_types loads ?json_ld [] = Inr (concat (map ?block ?json_ld))"
    by simp
  have "\<forall>s\<in>set ?json_ld. \<not> \<not> malformed loads s \<longrightarrow> ?block s = []"
    using assms by (auto simp: malformed_caught_no_types)
  then have "concat (map ?block (filter (\<lambda>s. \<not> malformed loads s) ?json_ld))
      = concat (map ?block ?json_ld)"
    by (rule concat_map_filter_nonempty)
  with c show ?thesis
    by (simp add: check_schema_markup_def Let_def length_find_all)
qed

text \<open>
  Claim C5. The claim does not hold of the code: the handler catches \<open>JSONDecodeError\<close>
  and \<open>TypeError\<close> only, and \<open>json.loads\<close> raises others on a text that is not JSON. A
  script of 1200 opening brackets does not parse, \<open>json.loads\<close> raises \<open>RecursionError\<close>
  on it, and \<open>check_schema_markup\<close> raises it: there is no result and no
  \<open>json_ld_count\<close>. (A script with the text \<open>not json\<close> is skipped and counted, as the
  claim says.)
\<close>

theorem json_ld_uncaught_exception:
  "malformed (\<lambda>s. if s = replicate 1200 (CHR ''['') then Inl RecursionError else Inl JSONDecodeError)
     (Elem ''script'' [(''type'', ''application/ld+json'')] [Text (replicate 1200 (CHR ''[''))]) \<and>
   check_schema_markup
     (\<lambda>s. if s = replicate 1200 (CHR ''['') then Inl RecursionError else Inl JSONDecodeError)
     [Elem ''head'' []
        [Elem ''script'' [(''type'', ''application/ld+json'')] [Text (replicate 1200 (CHR ''[''))]]]
     = Inl RecursionError \<and>
   check_schema_markup
     (\<lambda>s. if s = replicate 1200 (CHR ''['') then Inl RecursionError else Inl JSONDecodeError)
     [Elem ''head'' [] [Elem ''script'' [(''type'', ''application/ld+json'')] [Text ''not json'']]]
     = Inr \<lparr>has_schema = True, json_ld_count = 1, microdata_count = 0, rdfa_count = 0,
            schema_types = {}\<rparr>"
  by code_simp

text \<open>
  Another way the detector raises: \<open>list(set(schema_types))\<close> stands outside the \<open>try\<close>,
  and a well-formed script whose \<open>@type\<close> is a list makes it raise \<open>TypeError\<close>.
\<close>

lemma schema_unhashable_type_raises:
  "check_schema_markup
     (\<lambda>s. Inr (JObj [(''@type'', JArr [JStr ''Organization'', JStr ''LocalBusiness''])]))
     [Elem ''script'' [(''type'', ''application/ld+json'')] [Text ''x'']] = Inl TypeError"
  by code_simp

subsection \<open>PageSpeed insights\<close>

lemma bind_exc_simps [simp]:
  "bind_exc (Inl e) f = Inl e" "bind_exc (Inr x) f = f x"
  by (simp_all add: bind_exc_def)

lemma dict_get_JObj [simp]:
  "dict_get (JObj kv) k dflt = Inr (case map_of kv k of None \<Rightarrow> dflt | Some v \<Rightarrow> v)"
  by (simp add: dict_get_def)

lemma pagespeed_try_network:
  "http_get (pagespeed_request k url) = Inl e \<Longrightarrow> pagespeed_try http_get loads i100 k url = Inl e"
  by (simp add: pagespeed_try_def)

lemma pagespeed_try_status:
  "http_get (pagespeed_request k url) = Inr (Response code b) \<Longrightarrow> 400 \<le> code \<Longrightarrow> code < 600 \<Longrightarrow>
   pagespeed_try http_get loads i100 k url = Inl RequestException"
  by (simp add: pagespeed_try_def raise_for_status_def)

lemma pagespeed_try_not_json:
  "http_get (pagespeed_request k url) = Inr (Response code b) \<Longrightarrow> loads b = None \<Longrightarrow>
   \<exists>e. pagespeed_try http_get loads i100 k url = Inl e"
  by (simp add: pagespeed_try_def raise_for_status_def response_json_def)

lemma pagespeed_try_not_dict:
  "http_get (pagespeed_request k url) = Inr (Response code b) \<Longrightarrow> loads b = Some d \<Longrightarrow>
   dict_get d ''lighthouseResult'' (JObj []) = Inl e' \<Longrightarrow>
   \<exists>e. pagespeed_try http_get loads i100 k url = Inl e"
  by (simp add: pagespeed_try_def raise_for_status_def response_json_def)

lemma pagespeed_try_defaults:
  "http_get (pagespeed_request k url) = Inr (Response code b) \<Longrightarrow> \<not> (400 \<le> code \<and> code < 600) \<Longrightarrow>
   loads b = Some (JObj kv) \<Longrightarrow> map_of kv ''lighthouseResult'' = None \<Longrightarrow>
   pagespeed_try http_get loads i100 k url
     = Inr \<lparr>performance_score = 0, fcp = JStr ''N/A'', fcp_numeric = JInt 0\<rparr>"
  by (simp add: pagespeed_try_def raise_for_status_def response_json_def)

text \<open>
  Claim C7, as amended. Without a key (none, or the empty string) \<open>get_pagespeed_insights\<close>
  returns \<open>None\<close> and makes no outbound call, and both reports say for \<open>None\<close> that the
  data is not available. With a key it makes the one call and always returns (so the
  audit goes on): \<open>None\<close> when the call raises, when the status is from 400 to 599, when
  the body is not JSON and when the value is not a dictionary. A dictionary without
  \<open>lighthouseResult\<close> is not a failure: the result is there, with the defaults 0, \<open>N/A\<close>
  and 0.
\<close>

theorem pagespeed_absent_or_default:
  "(api_key = None \<or> api_key = Some [] \<longrightarrow>
      get_pagespeed_insights http_get loads i100 api_key url = ([], None)) \<and>
   display_pagespeed str_int str_json None
     = [bolt @ '' PageSpeed Performance: Not available (API key not provided)''] \<and>
   pdf_pagespeed str_int str_json None
     = [''PageSpeed data not available'', ''(API key not provided)''] \<and>
   (k \<noteq> [] \<longrightarrow>
      fst (get_pagespeed_insights http_get loads i100 (Some k) url) = [pagespeed_request k url] \<and>
      (http_get (pagespeed_request k url) = Inl e \<longrightarrow>
         snd (get_pagespeed_insights http_get loads i100 (Some k) url) = None) \<and>
      (http_get (pagespeed_request k url) = Inr (Response code b) \<and>
         ((400 \<le> code \<and> code < 600) \<or> loads b = None \<or>
          (\<exists>d e'. loads b = Some d \<and> dict_get d ''lighthouseResult'' (JObj []) = Inl e')) \<longrightarrow>
         snd (get_pagespeed_insights http_get loads i100 (Some k) url) = None) \<and>
      (http_get (pagespeed_request k url) = Inr (Response code b) \<and>
         \<not> (400 \<le> code \<and> code < 600) \<and> loads b = Some (JObj kv) \<and>
         map_of kv ''lighthouseResult'' = None \<longrightarrow>
         snd (get_pagespeed_insights http_get loads i100 (Some k) url)
           = Some \<lparr>performance_score = 0, fcp = JStr ''N/A'', fcp_numeric = JInt 0\<rparr>))"
proof -
  have nokey: "get_pagespeed_insights http_get loads i100 api_key url = ([], None)"
    if "api_key = None \<or> api_key = Some []"
    using that by (auto simp: get_pagespeed_insights_def)
  have calls: "fst (get_pagespeed_insights http_get loads i100 (Some k) url) = [pagespeed_request k url]"
    if "k \<noteq> []"
    using that by (simp add: get_pagespeed_insights_def)
  have res: "snd (get_pagespeed_insights http_get loads i100 (Some k) url)
      = (case pagespeed_try http_get loads i100 k url of Inl e \<Rightarrow> None | Inr r \<Rightarrow> Some r)"
    if "k \<noteq> []"
    using that by (simp add: get_pagespeed_insights_def)
  have net: "snd (get_pagespeed_insights http_get loads i100 (Some k) url) = None"
    if "k \<noteq> []" "http_get (pagespeed_request k url) = Inl e"
    using that pagespeed_try_network [of http_get k url e loads i100] by (simp add: res)
  have bad: "snd (get_pagespeed_insights http_get loads i100 (Some k) url) = None"
    if "k \<noteq> []" "http_get (pagespeed_request k url) = Inr (Response code b)"
      "(400 \<le> code \<and> code < 600) \<or> loads b = None \<or>
          (\<exists>d e'. loads b = Some d \<and> dict_get d ''lighthouseResult'' (JObj []) = Inl e')"
  proof -
    from that(3) have "\<exists>e. pagespeed_try http_get loads i100 k url = Inl e"
      using pagespeed_try_status [where http_get = http_get and k = k and url = url, OF that(2)]
        pagespeed_try_not_json [where http_get = http_get and k = k and url = url
          and loads = loads, OF that(2)]
        pagespeed_try_not_dict [where http_get = http_get and k = k and url = url
          and loads = loads, OF that(2)]
      by blast
    with that(1) show ?thesis by (auto simp: res)
  qed
  have dflt: "snd (get_pagespeed_insights http_get loads i100 (Some k) url)
           = Some \<lparr>performance_score = 0, fcp = JStr ''N/A'', fcp_numeric = JInt 0\<rparr>"
    if "k \<noteq> []" "http_get (pagespeed_request k url) = Inr (Response code b)"
      "\<not> (400 \<le> code \<and> code < 600)" "loads b = Some (JObj kv)"
      "map_of kv ''lighthouseResult'' = None"
    using that(1)
      pagespeed_try_defaults [where http_get = http_get and k = k and url = url
        and loads = loads, OF that(2-5)]
    by (simp add: res)
  show ?thesis
    using nokey calls net bad dflt
    by (simp add: display_pagespeed_def pdf_pagespeed_def)
qed

theorem pagespeed_absent_or_default_witness:
  "get_pagespeed_insights (\<lambda>r. Inl RequestException) (\<lambda>b. None) (\<lambda>v. Inl TypeError) None
     ''https://example.com'' = ([], None) \<and>
   snd (get_pagespeed_insights (\<lambda>r. Inl RequestException) (\<lambda>b. None) (\<lambda>v. Inl TypeError)
     (Some ''key'') ''https://example.com'') = None \<and>
   snd (get_pagespeed_insights (\<lambda>r. Inr (Response 503 ''busy'')) (\<lambda>b. None) (\<lambda>v. Inl TypeError)
     (Some ''key'') ''https://example.com'') = None \<and>
   snd (get_pagespeed_insights (\<lambda>r. Inr (Response 200 ''{}'')) (\<lambda>b. Some (JObj []))
     (\<lambda>v. Inl TypeError) (Some ''key'') ''https://example.com'')
     = Some \<lparr>performance_score = 0, fcp = JStr ''N/A'', fcp_numeric = JInt 0\<rparr>"
  using
    pagespeed_absent_or_default [where api_key = None and http_get = "\<lambda>r. Inl RequestException" and loads = "\<lambda>b. None"
      and ?i100.0 = "\<lambda>v. Inl TypeError" and url = "''https://example.com''" and k = "''key''"
      and e = RequestException]
    pagespeed_absent_or_default [where api_key = None and http_get = "\<lambda>r. Inr (Response 503 ''busy'')" and loads = "\<lambda>b. None"
      and ?i100.0 = "\<lambda>v. Inl TypeError" and url = "''https://example.com''" and k = "''key''"
      and code = 503 and b = "''busy''"]
    pagespeed_absent_or_default [where api_key = None and http_get = "\<lambda>r. Inr (Response 200 ''{}'')"
      and loads = "\<lambda>b. Some (JObj [])"
      and ?i100.0 = "\<lambda>v. Inl TypeError" and url = "''https://example.com''" and k = "''key''"
      and code = 200 and b = "''{}''" and kv = "[]"]
  by simp

text \<open>
  Claim C7 as it stands fails where fields are missing: the response \<open>{}\<close> with status
  200 gives a result that is present.
\<close>

theorem pagespeed_missing_fields_present:
  "get_pagespeed_insights (\<lambda>r. Inr (Response 200 ''{}'')) (\<lambda>b. Some (JObj [])) (\<lambda>v. Inl TypeError)
     (Some ''key'') ''https://example.com''
   = ([pagespeed_request ''key'' ''https://example.com''],
      Some \<lparr>performance_score = 0, fcp = JStr ''N/A'', fcp_numeric = JInt 0\<rparr>)"
  by code_simp

subsection \<open>Keyword frequency: case, substrings, hidden text\<close>

lemma named_map_text [simp]: "named ns (map_text f x) = named ns x"
  by (cases x) (simp_all add: named_def)

lemma named_map_hidden [simp]: "named ns (map_hidden f x) = named ns x"
  by (cases x) (simp_all add: named_def)

lemma named_decompose_node [simp]: "named ns (decompose_node ns' x) = named ns x"
  by (cases x) (simp_all add: named_def)






lemma named_strings [simp]: "named ns (Text s) = False" "named ns (Comment s) = False"
  by (simp_all add: named_def)

























end
